theory Spec2Isabelle
  imports Main "HOL-Library.Word"
begin

section \<open>The transit-IP registry of package appc\<close>

subsection \<open>Addresses and peer identifiers\<close>

text \<open>
  \<^verbatim>\<open>netip.Addr\<close> belongs to Go's standard library. It is a comparable value type: either
  the zero value \<^verbatim>\<open>netip.Addr{}\<close> (no address at all), an IPv4 address, or an IPv6 address
  with a zone. The registry only compares addresses with \<^verbatim>\<open>==\<close> (as map keys) and produces
  the zero value when a map read misses.
\<close>

datatype Addr = AddrZero | Addr4 "32 word" | Addr6 "128 word" string

text \<open>
  \<^verbatim>\<open>tailcfg.NodeID\<close> is declared outside the files at hand; the registry uses it as a map
  key only. It is a 64-bit integer identifier.
\<close>

type_synonym NodeID = "64 word"

subsection \<open>Request and response payloads\<close>

record TransitIPRequest =
  TransitIP :: Addr
  DestinationIP :: Addr

record ConnectorTransitIPRequest =
  ReqTransitIPs :: "TransitIPRequest list"

datatype TransitIPResponseCode = OK | OtherFailure

record TransitIPResponse =
  Code :: TransitIPResponseCode
  Message :: string

record ConnectorTransitIPResponse =
  RespTransitIPs :: "TransitIPResponse list"

text \<open>
  Both \<^verbatim>\<open>ConnectorTransitIPRequest\<close> and \<^verbatim>\<open>ConnectorTransitIPResponse\<close> call their only
  field \<^verbatim>\<open>TransitIPs\<close>; the prefixes \<open>Req\<close> and \<open>Resp\<close> keep the two selectors apart.
  The zero value \<^verbatim>\<open>TransitIPResponse{}\<close> has code \<^verbatim>\<open>OK\<close> (the constant 0) and the empty
  message.
\<close>

definition TransitIPResponse_zero :: TransitIPResponse where
  "TransitIPResponse_zero = \<lparr>Code = OK, Message = ''''\<rparr>"

definition dupeTransitIPMessage :: string where
  "dupeTransitIPMessage = ''Duplicate transit address in ConnectorTransitIPRequest''"

subsection \<open>The registry state\<close>

text \<open>
  \<^verbatim>\<open>Conn25.transitIPs\<close> is a Go map of maps. A Go map variable is either \<^verbatim>\<open>nil\<close> (here
  \<open>None\<close>) or refers to a map; reading a \<^verbatim>\<open>nil\<close> map or a missing key gives the zero
  value of the element type. The inner maps are created by \<^verbatim>\<open>make\<close> inside
  \<^verbatim>\<open>handleTransitIPRequest\<close> and stored under exactly one peer, so a write through
  \<^verbatim>\<open>peerMap\<close> is a write to the entry of that peer and of no other. The field is
  unexported and no statement stores a \<^verbatim>\<open>nil\<close> inner map, so only the outer map has a
  \<^verbatim>\<open>nil\<close> case.

  The field \<^verbatim>\<open>mu\<close> is left out of this sequential model: \<^verbatim>\<open>handleTransitIPRequest\<close> and
  \<^verbatim>\<open>transitIPTarget\<close> are the only functions that take the mutex, each releases it
  (\<^verbatim>\<open>defer c.mu.Unlock()\<close>) before it returns, and neither calls the other, so the mutex
  is free whenever one of them is entered from sequential code.
\<close>

type_synonym peerMap = "Addr \<rightharpoonup> Addr"

record Conn25 =
  transitIPs :: "(NodeID \<rightharpoonup> peerMap) option"

definition Conn25_zero :: Conn25 where
  "Conn25_zero = \<lparr>transitIPs = None\<rparr>"

subsection \<open>Registration\<close>

definition handleTransitIPRequest ::
  "Conn25 \<Rightarrow> NodeID \<Rightarrow> TransitIPRequest \<Rightarrow> TransitIPResponse \<times> Conn25" where
  "handleTransitIPRequest c nid tipr =
     (let m = (case transitIPs c of None \<Rightarrow> Map.empty | Some m0 \<Rightarrow> m0);
          peerMap = (case m nid of None \<Rightarrow> Map.empty | Some pm \<Rightarrow> pm);
          peerMap' = peerMap(TransitIP tipr \<mapsto> DestinationIP tipr)
      in (TransitIPResponse_zero, c\<lparr>transitIPs := Some (m(nid \<mapsto> peerMap'))\<rparr>))"

text \<open>
  \<^verbatim>\<open>seen\<close> is a \<^verbatim>\<open>map[netip.Addr]bool\<close>; \<^verbatim>\<open>seen[k]\<close> is \<^verbatim>\<open>false\<close> for a key that was never
  stored.
\<close>

definition seenAt :: "(Addr \<rightharpoonup> bool) \<Rightarrow> Addr \<Rightarrow> bool" where
  "seenAt seen a = (case seen a of None \<Rightarrow> False | Some b \<Rightarrow> b)"

text \<open>
  The \<^verbatim>\<open>for ... range ctipr.TransitIPs\<close> loop of \<^verbatim>\<open>HandleConnectorTransitIPRequest\<close>, with
  the three variables it updates: the connector, \<^verbatim>\<open>seen\<close> and \<^verbatim>\<open>resp.TransitIPs\<close>.
\<close>

fun transitLoop ::
  "NodeID \<Rightarrow> TransitIPRequest list \<Rightarrow> Conn25 \<times> (Addr \<rightharpoonup> bool) \<times> TransitIPResponse list
     \<Rightarrow> Conn25 \<times> (Addr \<rightharpoonup> bool) \<times> TransitIPResponse list" where
  "transitLoop nid [] st = st"
| "transitLoop nid (each # rest) (c, seen, resp) =
     (if seenAt seen (TransitIP each)
      then transitLoop nid rest
             (c, seen, resp @ [\<lparr>Code = OtherFailure, Message = dupeTransitIPMessage\<rparr>])
      else (let (tipresp, c') = handleTransitIPRequest c nid each
            in transitLoop nid rest (c', seen(TransitIP each \<mapsto> True), resp @ [tipresp])))"

definition HandleConnectorTransitIPRequest ::
  "Conn25 \<Rightarrow> NodeID \<Rightarrow> ConnectorTransitIPRequest \<Rightarrow> ConnectorTransitIPResponse \<times> Conn25" where
  "HandleConnectorTransitIPRequest c nid ctipr =
     (let (c', seen, resp) = transitLoop nid (ReqTransitIPs ctipr) (c, Map.empty, [])
      in (\<lparr>RespTransitIPs = resp\<rparr>, c'))"

subsection \<open>Lookup\<close>

definition transitIPTarget :: "Conn25 \<Rightarrow> NodeID \<Rightarrow> Addr \<Rightarrow> Addr" where
  "transitIPTarget c nid tip =
     (case transitIPs c of
        None \<Rightarrow> AddrZero
      | Some m \<Rightarrow>
          (case m nid of
             None \<Rightarrow> AddrZero
           | Some pm \<Rightarrow> (case pm tip of None \<Rightarrow> AddrZero | Some d \<Rightarrow> d)))"

subsection \<open>Notions used to state the properties\<close>

text \<open>
  An earlier pair of the batch carries the transit address of pair \<open>i\<close>.
\<close>

definition dupInBatch :: "TransitIPRequest list \<Rightarrow> nat \<Rightarrow> bool" where
  "dupInBatch reqs i \<longleftrightarrow> (\<exists>j<i. TransitIP (reqs ! j) = TransitIP (reqs ! i))"

text \<open>
  The loop variables after the first \<open>i\<close> iterations of a call that started with connector
  \<open>c\<close>.
\<close>

definition loopAfter ::
  "Conn25 \<Rightarrow> NodeID \<Rightarrow> TransitIPRequest list \<Rightarrow> nat
     \<Rightarrow> Conn25 \<times> (Addr \<rightharpoonup> bool) \<times> TransitIPResponse list" where
  "loopAfter c nid reqs i = transitLoop nid (take i reqs) (c, Map.empty, [])"

text \<open>
  The entry of a peer in the map of peers, \<open>None\<close> when the map is \<^verbatim>\<open>nil\<close> or has no such
  key.
\<close>

definition peerMapOf :: "Conn25 \<Rightarrow> NodeID \<Rightarrow> peerMap option" where
  "peerMapOf c nid = (case transitIPs c of None \<Rightarrow> None | Some m \<Rightarrow> m nid)"

text \<open>
  A sample batch: the second pair repeats the transit address of the first with another
  destination, the third pair is fresh.
\<close>

definition sampleBatch :: ConnectorTransitIPRequest where
  "sampleBatch = \<lparr>ReqTransitIPs =
     [\<lparr>TransitIP = Addr4 1, DestinationIP = Addr4 10\<rparr>,
      \<lparr>TransitIP = Addr4 1, DestinationIP = Addr4 20\<rparr>,
      \<lparr>TransitIP = Addr4 2, DestinationIP = Addr4 30\<rparr>]\<rparr>"

text \<open>
  The two operations of the registry as seen by its callers. \<^verbatim>\<open>transitIPTarget\<close> only reads
  the maps (a Go map read of a missing key stores nothing), so a lookup leaves the connector
  as it is.
\<close>

datatype registryOp = Register NodeID ConnectorTransitIPRequest | Lookup NodeID Addr

fun applyOp :: "Conn25 \<Rightarrow> registryOp \<Rightarrow> Conn25" where
  "applyOp c (Register nid ctipr) = snd (HandleConnectorTransitIPRequest c nid ctipr)"
| "applyOp c (Lookup nid tip) = c"

text \<open>
  A connector in which peer 7 has registered the single mapping \<open>1 \<mapsto> 10\<close>.
\<close>

definition sampleConn :: Conn25 where
  "sampleConn = \<lparr>transitIPs = Some [7 \<mapsto> [Addr4 1 \<mapsto> Addr4 10]]\<rparr>"

section \<open>Closed-pipe errors\<close>

subsection \<open>Go error values\<close>

text \<open>
  The values that \<^verbatim>\<open>IsClosedPipeError\<close> tells apart. A leaf is an error with no
  \<^verbatim>\<open>Unwrap\<close> method: a \<^verbatim>\<open>syscall.Errno\<close> (an unsigned integer), one of the two package-level
  sentinels \<^verbatim>\<open>io.ErrClosedPipe\<close> and \<^verbatim>\<open>fs.ErrClosed\<close>, or any other error, named by its text.
  \<open>Wrap\<close> is an error whose \<^verbatim>\<open>Unwrap\<close> gives one error (\<^verbatim>\<open>fmt.Errorf\<close> with \<^verbatim>\<open>%w\<close>,
  \<^verbatim>\<open>*os.SyscallError\<close>, \<^verbatim>\<open>*net.OpError\<close>, \<^verbatim>\<open>*fs.PathError\<close>), \<open>Join\<close> one whose \<^verbatim>\<open>Unwrap\<close>
  gives a list (\<^verbatim>\<open>errors.Join\<close>). A wrapper whose \<^verbatim>\<open>Unwrap\<close> gives \<^verbatim>\<open>nil\<close> matches no
  target and is a leaf of the last kind. An \<^verbatim>\<open>error\<close> interface value is a \<open>goError option\<close>,
  \<^verbatim>\<open>nil\<close> being \<open>None\<close>.
\<close>

datatype leafError =
    ErrnoError nat
  | ErrClosedPipe
  | ErrClosed
  | OtherError string

datatype goError =
    Leaf leafError
  | Wrap string goError
  | Join "goError list"

text \<open>
  \<^verbatim>\<open>errors.Is\<close> of Go's standard library, for a target that is an errno or one of the two
  sentinels (the only targets used here). It compares the error with the target, then
  follows \<^verbatim>\<open>Unwrap\<close>, depth first through joined errors. A wrapper is never identical to
  such a target, and the \<^verbatim>\<open>Is\<close> method of \<^verbatim>\<open>syscall.Errno\<close> answers only for the targets
  \<^verbatim>\<open>ErrPermission\<close>, \<^verbatim>\<open>ErrExist\<close>, \<^verbatim>\<open>ErrNotExist\<close> and \<^verbatim>\<open>ErrUnsupported\<close>, none of which is
  asked for.
\<close>

fun errorsIsChain :: "goError \<Rightarrow> leafError \<Rightarrow> bool" where
  "errorsIsChain (Leaf l) target = (l = target)"
| "errorsIsChain (Wrap msg e) target = errorsIsChain e target"
| "errorsIsChain (Join es) target = list_ex (\<lambda>e. errorsIsChain e target) es"

definition errors_Is :: "goError option \<Rightarrow> leafError \<Rightarrow> bool" where
  "errors_Is err target = (case err of None \<Rightarrow> False | Some e \<Rightarrow> errorsIsChain e target)"

text \<open>
  \<^verbatim>\<open>runtime.GOOS\<close>, \<^verbatim>\<open>syscall.EPIPE\<close> and \<^verbatim>\<open>syscall.ENOTCONN\<close> are constants of the Go
  distribution that depend on the target platform; the functions take them as a parameter.
\<close>

record platform =
  GOOS :: string
  EPIPE :: nat
  ENOTCONN :: nat

definition linux :: platform where
  "linux = \<lparr>GOOS = ''linux'', EPIPE = 32, ENOTCONN = 107\<rparr>"

subsection \<open>The three implementations\<close>

text \<open>Package \<^verbatim>\<open>neterror\<close>, build without \<^verbatim>\<open>plan9\<close>, \<^verbatim>\<open>js\<close>, \<^verbatim>\<open>wasip1\<close> and \<^verbatim>\<open>wasm\<close>.\<close>

definition IsClosedPipeError :: "platform \<Rightarrow> goError option \<Rightarrow> bool" where
  "IsClosedPipeError p err =
     (let expect = (if GOOS p = ''windows'' then 232 else EPIPE p)
      in errors_Is err (ErrnoError expect) \<or>
         errors_Is err (ErrnoError (ENOTCONN p)) \<or>
         errors_Is err ErrClosed \<or>
         errors_Is err ErrClosedPipe)"

text \<open>Package \<^verbatim>\<open>neterror\<close>, build for \<^verbatim>\<open>js\<close>, \<^verbatim>\<open>wasip1\<close> or \<^verbatim>\<open>wasm\<close>.\<close>

definition IsClosedPipeError_js :: "goError option \<Rightarrow> bool" where
  "IsClosedPipeError_js err = False"

text \<open>Package \<^verbatim>\<open>localapi\<close>.\<close>

definition IsClosedPipeError_localapi :: "platform \<Rightarrow> goError option \<Rightarrow> bool" where
  "IsClosedPipeError_localapi p err =
     (let expect = (if GOOS p = ''windows'' then 232 else EPIPE p)
      in if errors_Is err (ErrnoError expect) then True
         else errors_Is err ErrClosedPipe)"

subsection \<open>The conditions named by the specification\<close>

text \<open>
  The leaves found by unwrapping an error in every possible way.
\<close>

fun causes :: "goError \<Rightarrow> leafError list" where
  "causes (Leaf l) = [l]"
| "causes (Wrap msg e) = causes e"
| "causes (Join es) = concat (map causes es)"

text \<open>
  The errno with which the platform reports a write to a broken pipe: \<^verbatim>\<open>ERROR_NO_DATA\<close>
  (232, ``the pipe is being closed'') on Windows, \<^verbatim>\<open>EPIPE\<close> elsewhere.
\<close>

definition brokenPipeErrno :: "platform \<Rightarrow> nat" where
  "brokenPipeErrno p = (if GOOS p = ''windows'' then 232 else EPIPE p)"

text \<open>
  The specification's four conditions: pipe closed, broken pipe, not connected, already
  closed. An error represents a closed or broken pipe or socket when one of them is among
  its causes; \<^verbatim>\<open>nil\<close> represents nothing.
\<close>

definition closedPipeCondition :: "platform \<Rightarrow> leafError \<Rightarrow> bool" where
  "closedPipeCondition p l \<longleftrightarrow>
     l = ErrClosedPipe \<or> l = ErrnoError (brokenPipeErrno p) \<or>
     l = ErrnoError (ENOTCONN p) \<or> l = ErrClosed"

definition representsClosedPipe :: "platform \<Rightarrow> goError option \<Rightarrow> bool" where
  "representsClosedPipe p err =
     (case err of None \<Rightarrow> False | Some e \<Rightarrow> list_ex (closedPipeCondition p) (causes e))"

section \<open>The mutex during a registration\<close>

text \<open>
  To see where \<^verbatim>\<open>c.mu\<close> is held, the two registration functions are run once more, this
  time recording the connector after every statement that touches the mutex or the maps. A
  snapshot is a pair: whether the running call holds \<^verbatim>\<open>c.mu\<close>, and the fields of the
  connector. While the call does not hold the mutex, another goroutine can take it, and a
  \<^verbatim>\<open>transitIPTarget\<close> that does so reads the connector of that snapshot.

  \<^verbatim>\<open>handleTransitIPRequest\<close>: after \<^verbatim>\<open>c.mu.Lock()\<close>, after the \<^verbatim>\<open>nil\<close> check of
  \<^verbatim>\<open>c.transitIPs\<close>, after the peer's submap has been fetched or created, after the write
  through \<^verbatim>\<open>peerMap\<close>, and after the deferred \<^verbatim>\<open>c.mu.Unlock()\<close>.
\<close>

type_synonym snapshot = "bool \<times> Conn25"

definition handleTransitIPRequest_trace ::
  "Conn25 \<Rightarrow> NodeID \<Rightarrow> TransitIPRequest \<Rightarrow> snapshot list" where
  "handleTransitIPRequest_trace c nid tipr =
     (let m = (case transitIPs c of None \<Rightarrow> Map.empty | Some m0 \<Rightarrow> m0);
          c1 = c\<lparr>transitIPs := Some m\<rparr>;
          peerMap = (case m nid of None \<Rightarrow> Map.empty | Some pm \<Rightarrow> pm);
          c2 = c1\<lparr>transitIPs := Some (m(nid \<mapsto> peerMap))\<rparr>;
          peerMap' = peerMap(TransitIP tipr \<mapsto> DestinationIP tipr);
          c3 = c2\<lparr>transitIPs := Some (m(nid \<mapsto> peerMap'))\<rparr>
      in [(True, c), (True, c1), (True, c2), (True, c3), (False, c3)])"

text \<open>
  The loop of \<^verbatim>\<open>HandleConnectorTransitIPRequest\<close>. The iteration of a duplicate touches
  neither the mutex nor the maps and records nothing; any other iteration records the
  snapshots of its call of \<^verbatim>\<open>handleTransitIPRequest\<close>. The loop itself never calls
  \<^verbatim>\<open>c.mu.Lock()\<close>.
\<close>

fun transitLoop_trace ::
  "NodeID \<Rightarrow> TransitIPRequest list \<Rightarrow> Conn25 \<times> (Addr \<rightharpoonup> bool) \<times> TransitIPResponse list
     \<Rightarrow> snapshot list" where
  "transitLoop_trace nid [] st = []"
| "transitLoop_trace nid (each # rest) (c, seen, resp) =
     (if seenAt seen (TransitIP each)
      then transitLoop_trace nid rest
             (c, seen, resp @ [\<lparr>Code = OtherFailure, Message = dupeTransitIPMessage\<rparr>])
      else (let (tipresp, c') = handleTransitIPRequest c nid each
            in handleTransitIPRequest_trace c nid each @
               transitLoop_trace nid rest (c', seen(TransitIP each \<mapsto> True), resp @ [tipresp])))"

text \<open>
  A whole call: the snapshot on entry, where the call does not hold the mutex, then the
  snapshots of the loop.
\<close>

definition HandleConnectorTransitIPRequest_trace ::
  "Conn25 \<Rightarrow> NodeID \<Rightarrow> ConnectorTransitIPRequest \<Rightarrow> snapshot list" where
  "HandleConnectorTransitIPRequest_trace c nid ctipr =
     (False, c) # transitLoop_trace nid (ReqTransitIPs ctipr) (c, Map.empty, [])"

text \<open>
  \<^verbatim>\<open>transitIPTarget\<close> with its own use of the mutex: the snapshot after \<^verbatim>\<open>c.mu.Lock()\<close>, the
  read of \<^verbatim>\<open>c.transitIPs[nid][tip]\<close>, which stores nothing, and the snapshot after the
  deferred \<^verbatim>\<open>c.mu.Unlock()\<close>. Here the flag says whether the lookup holds the mutex.
\<close>

definition transitIPTarget_trace :: "Conn25 \<Rightarrow> NodeID \<Rightarrow> Addr \<Rightarrow> snapshot list \<times> Addr" where
  "transitIPTarget_trace c nid tip =
     (let locked = (True, c);
          target = transitIPTarget c nid tip;
          unlocked = (False, c)
      in ([locked, unlocked], target))"

text \<open>
  A lookup by another goroutine, running next to a registering call with snapshots \<open>tr\<close>
  and no other writer. The mutex is exclusive, so the \<^verbatim>\<open>c.mu.Lock()\<close> of the lookup can
  succeed at snapshot \<open>j\<close> of the registering call only if that call does not hold the
  mutex there. While the lookup then holds it, the registering call cannot enter
  \<^verbatim>\<open>handleTransitIPRequest\<close>, and outside that function it does not touch the connector, so
  the lookup runs on the connector of snapshot \<open>j\<close>. The result is \<open>None\<close> when the lookup
  cannot take the mutex at snapshot \<open>j\<close> and goes on waiting.
\<close>

definition lookupAt ::
  "snapshot list \<Rightarrow> nat \<Rightarrow> NodeID \<Rightarrow> Addr \<Rightarrow> (snapshot list \<times> Addr) option" where
  "lookupAt tr j nid tip =
     (if j < length tr \<and> \<not> fst (tr ! j)
      then Some (transitIPTarget_trace (snd (tr ! j)) nid tip)
      else None)"

text \<open>A batch of two pairs with different transit addresses.\<close>

definition twoFreshPairs :: ConnectorTransitIPRequest where
  "twoFreshPairs = \<lparr>ReqTransitIPs =
     [\<lparr>TransitIP = Addr4 1, DestinationIP = Addr4 10\<rparr>,
      \<lparr>TransitIP = Addr4 2, DestinationIP = Addr4 30\<rparr>]\<rparr>"

section \<open>Properties of the registry\<close>

subsection \<open>One application\<close>

lemma handleTransitIPRequest_resp:
  "fst (handleTransitIPRequest c nid tipr) = TransitIPResponse_zero"
  by (simp add: handleTransitIPRequest_def Let_def)

lemma handleTransitIPRequest_target_same:
  "transitIPTarget (snd (handleTransitIPRequest c nid tipr)) nid (TransitIP tipr)
     = DestinationIP tipr"
  by (simp add: handleTransitIPRequest_def transitIPTarget_def Let_def)

lemma handleTransitIPRequest_target_other:
  "nid' \<noteq> nid \<or> tip \<noteq> TransitIP tipr \<Longrightarrow>
   transitIPTarget (snd (handleTransitIPRequest c nid tipr)) nid' tip
     = transitIPTarget c nid' tip"
  by (auto simp: handleTransitIPRequest_def transitIPTarget_def Let_def
           split: option.splits)

subsection \<open>The loop\<close>

lemma transitLoop_append:
  "transitLoop nid (xs @ ys) st = transitLoop nid ys (transitLoop nid xs st)"
proof (induction xs arbitrary: st)
  case Nil
  show ?case by simp
next
  case (Cons x xs)
  obtain c seen resp where st: "st = (c, seen, resp)"
    by (cases st) auto
  show ?case
    unfolding st by (simp add: Cons.IH split: prod.splits)
qed

lemma transitLoop_snoc:
  "transitLoop nid (xs @ [x]) st = transitLoop nid [x] (transitLoop nid xs st)"
  by (rule transitLoop_append)

lemma transitLoop_take_Suc:
  assumes "i < length reqs"
  shows "transitLoop nid (take (Suc i) reqs) st
           = transitLoop nid [reqs ! i] (transitLoop nid (take i reqs) st)"
  using assms by (simp add: take_Suc_conv_app_nth transitLoop_append)

lemma transitLoop_drop:
  "transitLoop nid reqs st = transitLoop nid (drop i reqs) (transitLoop nid (take i reqs) st)"
  using transitLoop_append [of nid "take i reqs" "drop i reqs" st] by simp

lemma transitLoop_seen:
  "transitLoop nid xs (c, seen, resp) = (c', seen', resp') \<Longrightarrow>
   seenAt seen' a \<longleftrightarrow> seenAt seen a \<or> a \<in> TransitIP ` set xs"
proof (induction xs arbitrary: c seen resp)
  case Nil
  then show ?case by simp
next
  case (Cons x xs)
  show ?case
  proof (cases "seenAt seen (TransitIP x)")
    case True
    with Cons.prems
    have "transitLoop nid xs
            (c, seen, resp @ [\<lparr>Code = OtherFailure, Message = dupeTransitIPMessage\<rparr>])
          = (c', seen', resp')"
      by simp
    from Cons.IH [OF this] True show ?thesis by auto
  next
    case False
    with Cons.prems
    have "transitLoop nid xs
            (snd (handleTransitIPRequest c nid x), seen(TransitIP x \<mapsto> True),
             resp @ [fst (handleTransitIPRequest c nid x)])
          = (c', seen', resp')"
      by (simp split: prod.splits)
    from Cons.IH [OF this] show ?thesis
      by (auto simp: seenAt_def)
  qed
qed

lemma transitLoop_resp:
  "\<exists>new. snd (snd (transitLoop nid xs (c, seen, resp))) = resp @ new
        \<and> length new = length xs"
proof (induction xs arbitrary: c seen resp)
  case Nil
  show ?case by simp
next
  case (Cons x xs)
  show ?case
  proof (cases "seenAt seen (TransitIP x)")
    case True
    from Cons.IH [of c seen "resp @ [\<lparr>Code = OtherFailure, Message = dupeTransitIPMessage\<rparr>]"]
    obtain new where
      "snd (snd (transitLoop nid xs
          (c, seen, resp @ [\<lparr>Code = OtherFailure, Message = dupeTransitIPMessage\<rparr>])))
        = (resp @ [\<lparr>Code = OtherFailure, Message = dupeTransitIPMessage\<rparr>]) @ new"
      and "length new = length xs"
      by blast
    with True show ?thesis by simp
  next
    case False
    obtain r c1 where h: "handleTransitIPRequest c nid x = (r, c1)"
      by (cases "handleTransitIPRequest c nid x") auto
    from Cons.IH [of c1 "seen(TransitIP x \<mapsto> True)" "resp @ [r]"]
    obtain new where
      "snd (snd (transitLoop nid xs (c1, seen(TransitIP x \<mapsto> True), resp @ [r])))
        = (resp @ [r]) @ new"
      and "length new = length xs"
      by blast
    with False h show ?thesis by simp
  qed
qed

lemma transitLoop_resp_length:
  "length (snd (snd (transitLoop nid xs (c, seen, resp)))) = length resp + length xs"
  using transitLoop_resp [of nid xs c seen resp] by auto

lemma dupInBatch_take:
  assumes "i < length reqs"
  shows "dupInBatch reqs i \<longleftrightarrow> TransitIP (reqs ! i) \<in> TransitIP ` set (take i reqs)"
proof -
  have len: "length (take i reqs) = i"
    using assms by simp
  show ?thesis
  proof
    assume "dupInBatch reqs i"
    then obtain j where j: "j < i" "TransitIP (reqs ! j) = TransitIP (reqs ! i)"
      unfolding dupInBatch_def by blast
    then have "take i reqs ! j \<in> set (take i reqs)"
      using len by (metis nth_mem)
    then have "reqs ! j \<in> set (take i reqs)"
      using j(1) by simp
    then show "TransitIP (reqs ! i) \<in> TransitIP ` set (take i reqs)"
      using j(2) by (metis imageI)
  next
    assume "TransitIP (reqs ! i) \<in> TransitIP ` set (take i reqs)"
    then obtain x where x: "x \<in> set (take i reqs)" "TransitIP (reqs ! i) = TransitIP x"
      by blast
    then obtain j where "j < i" "take i reqs ! j = x"
      using len by (metis in_set_conv_nth)
    then show "dupInBatch reqs i"
      unfolding dupInBatch_def using x(2) by auto
  qed
qed

lemma loopAfter_seen:
  assumes "i < length reqs"
  shows "seenAt (fst (snd (loopAfter c nid reqs i))) (TransitIP (reqs ! i))
           \<longleftrightarrow> dupInBatch reqs i"
proof -
  obtain c' seen' resp' where st: "loopAfter c nid reqs i = (c', seen', resp')"
    by (cases "loopAfter c nid reqs i") auto
  from transitLoop_seen [OF st [unfolded loopAfter_def], of "TransitIP (reqs ! i)"]
  show ?thesis
    by (simp add: st dupInBatch_take [OF assms] seenAt_def)
qed

lemma loopAfter_resp_length:
  "length (snd (snd (loopAfter c nid reqs i))) = min (length reqs) i"
  by (simp add: loopAfter_def transitLoop_resp_length)

lemma loopAfter_Suc:
  assumes "i < length reqs"
  shows "loopAfter c nid reqs (Suc i) =
     (let (ci, seen, resp) = loopAfter c nid reqs i in
      if dupInBatch reqs i
      then (ci, seen, resp @ [\<lparr>Code = OtherFailure, Message = dupeTransitIPMessage\<rparr>])
      else (snd (handleTransitIPRequest ci nid (reqs ! i)),
            seen(TransitIP (reqs ! i) \<mapsto> True),
            resp @ [TransitIPResponse_zero]))"
proof -
  obtain ci seen resp where st: "loopAfter c nid reqs i = (ci, seen, resp)"
    by (cases "loopAfter c nid reqs i") auto
  have seen: "seenAt seen (TransitIP (reqs ! i)) \<longleftrightarrow> dupInBatch reqs i"
    using loopAfter_seen [OF assms, of c nid] by (simp add: st)
  obtain r c1 where h: "handleTransitIPRequest ci nid (reqs ! i) = (r, c1)"
    by (cases "handleTransitIPRequest ci nid (reqs ! i)") auto
  have r: "r = TransitIPResponse_zero"
    using handleTransitIPRequest_resp [of ci nid "reqs ! i"] by (simp add: h)
  have "loopAfter c nid reqs (Suc i) = transitLoop nid [reqs ! i] (ci, seen, resp)"
    using transitLoop_take_Suc [OF assms] st by (simp add: loopAfter_def)
  then show ?thesis
    using seen by (simp add: st h r)
qed

lemma loopAfter_all:
  "HandleConnectorTransitIPRequest c nid ctipr =
     (\<lparr>RespTransitIPs = snd (snd (loopAfter c nid (ReqTransitIPs ctipr)
                                      (length (ReqTransitIPs ctipr))))\<rparr>,
      fst (loopAfter c nid (ReqTransitIPs ctipr) (length (ReqTransitIPs ctipr))))"
  by (simp add: HandleConnectorTransitIPRequest_def loopAfter_def split: prod.splits)

lemma loopAfter_resp_stable:
  assumes "i \<le> k" "k \<le> length reqs"
  shows "take i (snd (snd (loopAfter c nid reqs k))) = snd (snd (loopAfter c nid reqs i))"
proof -
  obtain ci seen resp where st: "loopAfter c nid reqs i = (ci, seen, resp)"
    by (cases "loopAfter c nid reqs i") auto
  have "take i (take k reqs) = take i reqs"
    using assms by (simp add: min_absorb1)
  then have "take k reqs = take i reqs @ drop i (take k reqs)"
    using append_take_drop_id [of i "take k reqs"] by simp
  then have "loopAfter c nid reqs k = transitLoop nid (drop i (take k reqs)) (ci, seen, resp)"
    using st transitLoop_append [of nid "take i reqs" "drop i (take k reqs)" "(c, Map.empty, [])"]
    by (simp add: loopAfter_def)
  moreover obtain new where
    "snd (snd (transitLoop nid (drop i (take k reqs)) (ci, seen, resp))) = resp @ new"
    using transitLoop_resp by blast
  moreover have "length resp = i"
    using loopAfter_resp_length [of c nid reqs i] assms by (simp add: st)
  ultimately show ?thesis by (simp add: st)
qed

lemma loopAfter_resp_nth:
  assumes "i < length reqs"
  shows "snd (snd (loopAfter c nid reqs (length reqs))) ! i =
     (if dupInBatch reqs i then \<lparr>Code = OtherFailure, Message = dupeTransitIPMessage\<rparr>
      else TransitIPResponse_zero)"
proof -
  obtain ci seen resp where st: "loopAfter c nid reqs i = (ci, seen, resp)"
    by (cases "loopAfter c nid reqs i") auto
  have len: "length resp = i"
    using loopAfter_resp_length [of c nid reqs i] assms by (simp add: st)
  have "snd (snd (loopAfter c nid reqs (length reqs))) ! i
          = take (Suc i) (snd (snd (loopAfter c nid reqs (length reqs)))) ! i"
    by simp
  also have "\<dots> = snd (snd (loopAfter c nid reqs (Suc i))) ! i"
    using loopAfter_resp_stable [of "Suc i" "length reqs" reqs c nid] assms by simp
  also have "\<dots> = (if dupInBatch reqs i
                   then \<lparr>Code = OtherFailure, Message = dupeTransitIPMessage\<rparr>
                   else TransitIPResponse_zero)"
    using nth_append_length [of resp] len by (simp add: loopAfter_Suc [OF assms] st)
  finally show ?thesis .
qed

subsection \<open>Outcomes of a batch\<close>

text \<open>
  C8. Registering an empty batch returns an empty outcome list and leaves the connector
  exactly as it was: the map of peers stays \<^verbatim>\<open>nil\<close> if it was \<^verbatim>\<open>nil\<close>, and no peer entry is
  added.
\<close>

theorem empty_batch_no_effect:
  "HandleConnectorTransitIPRequest c nid \<lparr>ReqTransitIPs = []\<rparr> = (\<lparr>RespTransitIPs = []\<rparr>, c)"
  by (simp add: HandleConnectorTransitIPRequest_def)



text \<open>
  C2. The response of a batch of \<open>N\<close> pairs has exactly \<open>N\<close> outcomes. Outcome \<open>i\<close> is the
  outcome of pair \<open>i\<close>: the duplicate failure if an earlier pair carries the same transit
  address, and the zero response of \<^verbatim>\<open>handleTransitIPRequest\<close> otherwise. The outcomes keep the
  input order: the response to the first \<open>k\<close> pairs alone is the first \<open>k\<close> outcomes of the
  whole response. Every outcome is \<^verbatim>\<open>OK\<close> with an empty message or \<^verbatim>\<open>OtherFailure\<close> with a
  non-empty one.
\<close>

theorem outcomes_in_input_order:
  "length (RespTransitIPs (fst (HandleConnectorTransitIPRequest c nid ctipr)))
     = length (ReqTransitIPs ctipr)
   \<and> (\<forall>i < length (ReqTransitIPs ctipr).
         RespTransitIPs (fst (HandleConnectorTransitIPRequest c nid ctipr)) ! i
           = (if \<exists>j<i. TransitIP (ReqTransitIPs ctipr ! j) = TransitIP (ReqTransitIPs ctipr ! i)
              then \<lparr>Code = OtherFailure, Message = dupeTransitIPMessage\<rparr>
              else \<lparr>Code = OK, Message = ''''\<rparr>))
   \<and> (\<forall>k \<le> length (ReqTransitIPs ctipr).
         RespTransitIPs (fst (HandleConnectorTransitIPRequest c nid
                                \<lparr>ReqTransitIPs = take k (ReqTransitIPs ctipr)\<rparr>))
           = take k (RespTransitIPs (fst (HandleConnectorTransitIPRequest c nid ctipr))))
   \<and> (\<forall>r \<in> set (RespTransitIPs (fst (HandleConnectorTransitIPRequest c nid ctipr))).
         (Code r = OK \<and> Message r = '''') \<or> (Code r = OtherFailure \<and> Message r \<noteq> ''''))"
proof -
  let ?reqs = "ReqTransitIPs ctipr"
  let ?resp = "RespTransitIPs (fst (HandleConnectorTransitIPRequest c nid ctipr))"
  have resp: "?resp = snd (snd (loopAfter c nid ?reqs (length ?reqs)))"
    by (simp add: loopAfter_all)
  have len: "length ?resp = length ?reqs"
    by (simp add: resp loopAfter_resp_length)
  have nth: "?resp ! i
          = (if \<exists>j<i. TransitIP (?reqs ! j) = TransitIP (?reqs ! i)
             then \<lparr>Code = OtherFailure, Message = dupeTransitIPMessage\<rparr>
             else \<lparr>Code = OK, Message = ''''\<rparr>)" if "i < length ?reqs" for i
    using loopAfter_resp_nth [OF that, of c nid]
    by (simp add: resp dupInBatch_def TransitIPResponse_zero_def)
  have pre: "RespTransitIPs (fst (HandleConnectorTransitIPRequest c nid
                                \<lparr>ReqTransitIPs = take k ?reqs\<rparr>)) = take k ?resp"
    if "k \<le> length ?reqs" for k
  proof -
    have "RespTransitIPs (fst (HandleConnectorTransitIPRequest c nid
                                \<lparr>ReqTransitIPs = take k ?reqs\<rparr>))
            = snd (snd (loopAfter c nid ?reqs k))"
      by (simp add: HandleConnectorTransitIPRequest_def loopAfter_def split: prod.splits)
    also have "\<dots> = take k ?resp"
      using loopAfter_resp_stable [of k "length ?reqs" ?reqs c nid] that
      by (simp add: resp)
    finally show ?thesis .
  qed
  have shape: "(Code r = OK \<and> Message r = '''') \<or> (Code r = OtherFailure \<and> Message r \<noteq> '''')"
    if "r \<in> set ?resp" for r
  proof -
    from that obtain i where i: "i < length ?resp" "?resp ! i = r"
      by (metis in_set_conv_nth)
    then have "i < length ?reqs"
      using len by simp
    from nth [OF this] i(2) show ?thesis
      by (auto simp: dupeTransitIPMessage_def split: if_splits)
  qed
  from len nth pre shape show ?thesis
    by blast
qed

theorem outcomes_in_input_order_witness:
  "length (RespTransitIPs (fst (HandleConnectorTransitIPRequest Conn25_zero 7 sampleBatch))) = 3
   \<and> RespTransitIPs (fst (HandleConnectorTransitIPRequest Conn25_zero 7 sampleBatch)) ! 0
       = \<lparr>Code = OK, Message = ''''\<rparr>
   \<and> RespTransitIPs (fst (HandleConnectorTransitIPRequest Conn25_zero 7 sampleBatch)) ! 1
       = \<lparr>Code = OtherFailure, Message = dupeTransitIPMessage\<rparr>
   \<and> RespTransitIPs (fst (HandleConnectorTransitIPRequest Conn25_zero 7 sampleBatch)) ! 2
       = \<lparr>Code = OK, Message = ''''\<rparr>"
proof -
  let ?resp = "RespTransitIPs (fst (HandleConnectorTransitIPRequest Conn25_zero 7 sampleBatch))"
  note inst = outcomes_in_input_order [of Conn25_zero 7 sampleBatch]
  from inst have len: "length ?resp = 3"
    by (simp add: sampleBatch_def)
  from inst have nth: "\<And>i. i < 3 \<Longrightarrow> ?resp ! i
      = (if \<exists>j<i. TransitIP (ReqTransitIPs sampleBatch ! j)
                      = TransitIP (ReqTransitIPs sampleBatch ! i)
         then \<lparr>Code = OtherFailure, Message = dupeTransitIPMessage\<rparr>
         else \<lparr>Code = OK, Message = ''''\<rparr>)"
    by (simp add: sampleBatch_def)
  have "?resp ! 0 = \<lparr>Code = OK, Message = ''''\<rparr>"
    using nth [of 0] by simp
  moreover have "?resp ! 1 = \<lparr>Code = OtherFailure, Message = dupeTransitIPMessage\<rparr>"
    using nth [of 1] by (simp add: sampleBatch_def)
  moreover have "?resp ! 2 = \<lparr>Code = OK, Message = ''''\<rparr>"
    using nth [of 2] by (simp add: sampleBatch_def numeral_2_eq_2 Ex_less_Suc)
  ultimately show ?thesis
    using len by simp
qed

subsection \<open>Frame properties\<close>

lemma transitLoop_Cons_dup:
  "seenAt seen (TransitIP x) \<Longrightarrow>
   transitLoop nid (x # xs) (c, seen, resp) =
     transitLoop nid xs (c, seen, resp @ [\<lparr>Code = OtherFailure, Message = dupeTransitIPMessage\<rparr>])"
  by simp

lemma transitLoop_Cons_fresh:
  "\<not> seenAt seen (TransitIP x) \<Longrightarrow>
   transitLoop nid (x # xs) (c, seen, resp) =
     transitLoop nid xs (snd (handleTransitIPRequest c nid x), seen(TransitIP x \<mapsto> True),
                         resp @ [fst (handleTransitIPRequest c nid x)])"
  by (simp add: case_prod_beta)

lemma Handle_snd:
  "snd (HandleConnectorTransitIPRequest c nid ctipr)
     = fst (transitLoop nid (ReqTransitIPs ctipr) (c, Map.empty, []))"
  by (simp add: HandleConnectorTransitIPRequest_def case_prod_beta)

lemma Handle_fst:
  "fst (HandleConnectorTransitIPRequest c nid ctipr)
     = \<lparr>RespTransitIPs = snd (snd (transitLoop nid (ReqTransitIPs ctipr) (c, Map.empty, [])))\<rparr>"
  by (simp add: HandleConnectorTransitIPRequest_def case_prod_beta)

lemma transitIPTarget_peerMapOf:
  "transitIPTarget c nid tip =
     (case peerMapOf c nid of
        None \<Rightarrow> AddrZero
      | Some pm \<Rightarrow> (case pm tip of None \<Rightarrow> AddrZero | Some d \<Rightarrow> d))"
  by (simp add: transitIPTarget_def peerMapOf_def split: option.splits)

lemma peerMapOf_handle:
  "peerMapOf (snd (handleTransitIPRequest c nid tipr)) nid' =
     (if nid' = nid
      then Some ((case peerMapOf c nid of None \<Rightarrow> Map.empty | Some pm \<Rightarrow> pm)
                   (TransitIP tipr \<mapsto> DestinationIP tipr))
      else peerMapOf c nid')"
  by (simp add: handleTransitIPRequest_def peerMapOf_def Let_def split: option.splits)

lemma transitLoop_peerMapOf_other:
  "nid' \<noteq> nid \<Longrightarrow>
   peerMapOf (fst (transitLoop nid xs (c, seen, resp))) nid' = peerMapOf c nid'"
proof (induction xs arbitrary: c seen resp)
  case Nil
  show ?case by simp
next
  case (Cons x xs)
  have c1: "peerMapOf (snd (handleTransitIPRequest c nid x)) nid' = peerMapOf c nid'"
    using Cons.prems by (simp add: peerMapOf_handle)
  show ?case
  proof (cases "seenAt seen (TransitIP x)")
    case True
    show ?thesis
      by (simp only: transitLoop_Cons_dup [OF True] Cons.IH [OF Cons.prems])
  next
    case False
    show ?thesis
      by (simp only: transitLoop_Cons_fresh [OF False] Cons.IH [OF Cons.prems] c1)
  qed
qed

lemma transitLoop_target_frame:
  "seenAt seen a \<or> a \<notin> TransitIP ` set xs \<Longrightarrow>
   transitIPTarget (fst (transitLoop nid xs (c, seen, resp))) nid' a = transitIPTarget c nid' a"
proof (induction xs arbitrary: c seen resp)
  case Nil
  show ?case by simp
next
  case (Cons x xs)
  show ?case
  proof (cases "seenAt seen (TransitIP x)")
    case True
    have "seenAt seen a \<or> a \<notin> TransitIP ` set xs"
      using Cons.prems by auto
    from Cons.IH [OF this] show ?thesis
      by (simp only: transitLoop_Cons_dup [OF True])
  next
    case False
    have ne: "a \<noteq> TransitIP x"
      using Cons.prems False by auto
    have c1: "transitIPTarget (snd (handleTransitIPRequest c nid x)) nid' a
                = transitIPTarget c nid' a"
      using handleTransitIPRequest_target_other [of nid' nid a x c] ne by simp
    have "seenAt (seen(TransitIP x \<mapsto> True)) a \<or> a \<notin> TransitIP ` set xs"
      using Cons.prems ne by (auto simp: seenAt_def)
    from Cons.IH [OF this] show ?thesis
      by (simp only: transitLoop_Cons_fresh [OF False] c1)
  qed
qed

lemma applyOp_target_frame:
  assumes "\<And>ctipr. op = Register nid ctipr \<Longrightarrow> tip \<notin> TransitIP ` set (ReqTransitIPs ctipr)"
  shows "transitIPTarget (applyOp c op) nid tip = transitIPTarget c nid tip"
proof (cases op)
  case (Register nid' ctipr)
  show ?thesis
  proof (cases "nid' = nid")
    case True
    then have "tip \<notin> TransitIP ` set (ReqTransitIPs ctipr)"
      using assms Register by simp
    then show ?thesis
      using transitLoop_target_frame [of Map.empty tip "ReqTransitIPs ctipr" nid' c "[]" nid]
      by (simp add: Register Handle_snd)
  next
    case False
    then have "peerMapOf (applyOp c op) nid = peerMapOf c nid"
      using transitLoop_peerMapOf_other [of nid nid' "ReqTransitIPs ctipr" c Map.empty "[]"]
      by (simp add: Register Handle_snd)
    then show ?thesis
      by (simp add: transitIPTarget_peerMapOf)
  qed
next
  case (Lookup nid' tip')
  then show ?thesis by simp
qed

lemma run_target_frame:
  "(\<And>ctipr. Register nid ctipr \<in> set ops \<Longrightarrow> tip \<notin> TransitIP ` set (ReqTransitIPs ctipr)) \<Longrightarrow>
   transitIPTarget (foldl applyOp c ops) nid tip = transitIPTarget c nid tip"
proof (induction ops arbitrary: c)
  case Nil
  show ?case by simp
next
  case (Cons op ops)
  have "transitIPTarget (foldl applyOp (applyOp c op) ops) nid tip
          = transitIPTarget (applyOp c op) nid tip"
    using Cons.IH [of "applyOp c op"] Cons.prems by simp
  also have "\<dots> = transitIPTarget c nid tip"
    using applyOp_target_frame [of op nid tip c] Cons.prems by simp
  finally show ?case by simp
qed

subsection \<open>No empty submap\<close>

lemma handle_no_empty:
  assumes "\<forall>n. peerMapOf c n \<noteq> Some Map.empty"
  shows "\<forall>n. peerMapOf (snd (handleTransitIPRequest c nid tipr)) n \<noteq> Some Map.empty"
  using assms by (simp add: peerMapOf_handle)

lemma transitLoop_no_empty:
  "\<forall>n. peerMapOf c n \<noteq> Some Map.empty \<Longrightarrow>
   \<forall>n. peerMapOf (fst (transitLoop nid xs (c, seen, resp))) n \<noteq> Some Map.empty"
proof (induction xs arbitrary: c seen resp)
  case Nil
  then show ?case by simp
next
  case (Cons x xs)
  show ?case
  proof (cases "seenAt seen (TransitIP x)")
    case True
    show ?thesis
      unfolding transitLoop_Cons_dup [OF True] by (rule Cons.IH [OF Cons.prems])
  next
    case False
    show ?thesis
      unfolding transitLoop_Cons_fresh [OF False]
      by (rule Cons.IH [OF handle_no_empty [OF Cons.prems]])
  qed
qed

lemma applyOp_no_empty:
  assumes "\<forall>n. peerMapOf c n \<noteq> Some Map.empty"
  shows "\<forall>n. peerMapOf (applyOp c op) n \<noteq> Some Map.empty"
proof (cases op)
  case (Register nid ctipr)
  then show ?thesis
    using transitLoop_no_empty [OF assms, of nid "ReqTransitIPs ctipr" Map.empty "[]"]
    by (simp add: Handle_snd)
next
  case (Lookup nid tip)
  then show ?thesis using assms by simp
qed

lemma run_no_empty:
  "\<forall>n. peerMapOf c n \<noteq> Some Map.empty \<Longrightarrow>
   \<forall>n. peerMapOf (foldl applyOp c ops) n \<noteq> Some Map.empty"
proof (induction ops arbitrary: c)
  case Nil
  then show ?case by simp
next
  case (Cons op ops)
  from Cons.IH [OF applyOp_no_empty [OF Cons.prems, of op]] show ?case
    by simp
qed

lemma transitLoop_peers:
  "peerMapOf (fst (transitLoop nid xs (c, seen, resp))) n \<noteq> None
     \<longleftrightarrow> peerMapOf c n \<noteq> None \<or> (n = nid \<and> (\<exists>x \<in> set xs. \<not> seenAt seen (TransitIP x)))"
proof (induction xs arbitrary: c seen resp)
  case Nil
  show ?case by simp
next
  case (Cons x xs)
  show ?case
  proof (cases "seenAt seen (TransitIP x)")
    case True
    have "(\<exists>y \<in> set (x # xs). \<not> seenAt seen (TransitIP y))
            \<longleftrightarrow> (\<exists>y \<in> set xs. \<not> seenAt seen (TransitIP y))"
      using True by auto
    then show ?thesis
      by (simp only: transitLoop_Cons_dup [OF True] Cons.IH)
  next
    case False
    have c1: "peerMapOf (snd (handleTransitIPRequest c nid x)) n \<noteq> None
                \<longleftrightarrow> peerMapOf c n \<noteq> None \<or> n = nid"
      by (simp add: peerMapOf_handle)
    have ex: "\<exists>y \<in> set (x # xs). \<not> seenAt seen (TransitIP y)"
      using False by simp
    have "peerMapOf (fst (transitLoop nid (x # xs) (c, seen, resp))) n \<noteq> None
            \<longleftrightarrow> (peerMapOf c n \<noteq> None \<or> n = nid)
                \<or> (n = nid \<and> (\<exists>y \<in> set xs. \<not> seenAt (seen(TransitIP x \<mapsto> True)) (TransitIP y)))"
      by (simp only: transitLoop_Cons_fresh [OF False] Cons.IH c1)
    then show ?thesis
      using ex by blast
  qed
qed

subsection \<open>Registration and lookup\<close>

text \<open>
  C3. Once a pair has been applied, looking its transit address up for the same peer gives
  its destination; this holds right after \<^verbatim>\<open>handleTransitIPRequest\<close> and, for every pair of
  a batch that is not rejected as a duplicate, also at the end of the batch. Registering
  \<open>(T, D1)\<close> and then, in a second call, \<open>(T, D2)\<close> for the same peer answers \<^verbatim>\<open>OK\<close> with an
  empty message both times and leaves \<open>T\<close> mapped to \<open>D2\<close>; with \<open>D1 = D2\<close> the second call
  does not even change the connector.
\<close>

theorem latest_registration_wins:
  "transitIPTarget (snd (handleTransitIPRequest c nid tipr)) nid (TransitIP tipr)
     = DestinationIP tipr
   \<and> (\<forall>i < length (ReqTransitIPs ctipr).
         \<not> (\<exists>j<i. TransitIP (ReqTransitIPs ctipr ! j) = TransitIP (ReqTransitIPs ctipr ! i))
         \<longrightarrow> transitIPTarget (snd (HandleConnectorTransitIPRequest c nid ctipr)) nid
               (TransitIP (ReqTransitIPs ctipr ! i))
             = DestinationIP (ReqTransitIPs ctipr ! i))
   \<and> (let (r1, c1) = HandleConnectorTransitIPRequest c nid
                        \<lparr>ReqTransitIPs = [\<lparr>TransitIP = T, DestinationIP = D1\<rparr>]\<rparr>;
           (r2, c2) = HandleConnectorTransitIPRequest c1 nid
                        \<lparr>ReqTransitIPs = [\<lparr>TransitIP = T, DestinationIP = D2\<rparr>]\<rparr>
       in r1 = \<lparr>RespTransitIPs = [\<lparr>Code = OK, Message = ''''\<rparr>]\<rparr>
        \<and> r2 = \<lparr>RespTransitIPs = [\<lparr>Code = OK, Message = ''''\<rparr>]\<rparr>
        \<and> transitIPTarget c1 nid T = D1
        \<and> transitIPTarget c2 nid T = D2
        \<and> (D1 = D2 \<longrightarrow> c2 = c1))"
proof -
  let ?reqs = "ReqTransitIPs ctipr"
  have batch: "transitIPTarget (snd (HandleConnectorTransitIPRequest c nid ctipr)) nid
                 (TransitIP (?reqs ! i)) = DestinationIP (?reqs ! i)"
    if i: "i < length ?reqs" and fresh: "\<not> dupInBatch ?reqs i" for i
  proof -
    obtain ci seen resp where st: "loopAfter c nid ?reqs i = (ci, seen, resp)"
      by (cases "loopAfter c nid ?reqs i") auto
    let ?c' = "snd (handleTransitIPRequest ci nid (?reqs ! i))"
    let ?seen' = "seen(TransitIP (?reqs ! i) \<mapsto> True)"
    let ?resp' = "resp @ [TransitIPResponse_zero]"
    have next_st: "loopAfter c nid ?reqs (Suc i) = (?c', ?seen', ?resp')"
      using fresh by (simp add: loopAfter_Suc [OF i] st)
    have "snd (HandleConnectorTransitIPRequest c nid ctipr)
            = fst (transitLoop nid (drop (Suc i) ?reqs) (?c', ?seen', ?resp'))"
      using transitLoop_drop [of nid ?reqs "(c, Map.empty, [])" "Suc i"] next_st
      by (simp add: Handle_snd loopAfter_def)
    moreover have "seenAt ?seen' (TransitIP (?reqs ! i))"
      by (simp add: seenAt_def)
    ultimately have "transitIPTarget (snd (HandleConnectorTransitIPRequest c nid ctipr)) nid
                       (TransitIP (?reqs ! i))
                     = transitIPTarget ?c' nid (TransitIP (?reqs ! i))"
      using transitLoop_target_frame [of ?seen' "TransitIP (?reqs ! i)" "drop (Suc i) ?reqs"
                                         nid ?c' ?resp' nid]
      by simp
    then show ?thesis
      by (simp add: handleTransitIPRequest_target_same)
  qed
  have two: "(let (r1, c1) = HandleConnectorTransitIPRequest c nid
                        \<lparr>ReqTransitIPs = [\<lparr>TransitIP = T, DestinationIP = D1\<rparr>]\<rparr>;
           (r2, c2) = HandleConnectorTransitIPRequest c1 nid
                        \<lparr>ReqTransitIPs = [\<lparr>TransitIP = T, DestinationIP = D2\<rparr>]\<rparr>
       in r1 = \<lparr>RespTransitIPs = [\<lparr>Code = OK, Message = ''''\<rparr>]\<rparr>
        \<and> r2 = \<lparr>RespTransitIPs = [\<lparr>Code = OK, Message = ''''\<rparr>]\<rparr>
        \<and> transitIPTarget c1 nid T = D1
        \<and> transitIPTarget c2 nid T = D2
        \<and> (D1 = D2 \<longrightarrow> c2 = c1))"
    by (simp add: HandleConnectorTransitIPRequest_def handleTransitIPRequest_def seenAt_def
                  transitIPTarget_def TransitIPResponse_zero_def Let_def)
  from batch two show ?thesis
    unfolding dupInBatch_def by (simp add: handleTransitIPRequest_target_same)
qed

theorem latest_registration_wins_witness:
  "(0::nat) < length (ReqTransitIPs sampleBatch)
   \<and> \<not> (\<exists>j<0. TransitIP (ReqTransitIPs sampleBatch ! j) = TransitIP (ReqTransitIPs sampleBatch ! 0))
   \<and> transitIPTarget (snd (HandleConnectorTransitIPRequest sampleConn 7 sampleBatch)) 7 (Addr4 1)
       = Addr4 10
   \<and> transitIPTarget
        (snd (HandleConnectorTransitIPRequest
               (snd (HandleConnectorTransitIPRequest Conn25_zero 7
                      \<lparr>ReqTransitIPs = [\<lparr>TransitIP = Addr4 1, DestinationIP = Addr4 10\<rparr>]\<rparr>))
               7 \<lparr>ReqTransitIPs = [\<lparr>TransitIP = Addr4 1, DestinationIP = Addr4 20\<rparr>]\<rparr>))
        7 (Addr4 1)
       = Addr4 20"
proof -
  note a = latest_registration_wins [of sampleConn 7
             "\<lparr>TransitIP = Addr4 1, DestinationIP = Addr4 10\<rparr>" sampleBatch
             "Addr4 1" "Addr4 10" "Addr4 20"]
  note b = latest_registration_wins [of Conn25_zero 7
             "\<lparr>TransitIP = Addr4 1, DestinationIP = Addr4 10\<rparr>" sampleBatch
             "Addr4 1" "Addr4 10" "Addr4 20"]
  have len: "(0::nat) < length (ReqTransitIPs sampleBatch)"
    by (simp add: sampleBatch_def)
  have fresh: "\<not> (\<exists>j<0. TransitIP (ReqTransitIPs sampleBatch ! j)
                          = TransitIP (ReqTransitIPs sampleBatch ! 0))"
    by simp
  from a len fresh
  have "transitIPTarget (snd (HandleConnectorTransitIPRequest sampleConn 7 sampleBatch)) 7
          (TransitIP (ReqTransitIPs sampleBatch ! 0))
        = DestinationIP (ReqTransitIPs sampleBatch ! 0)"
    by blast
  moreover have "TransitIP (ReqTransitIPs sampleBatch ! 0) = Addr4 1"
    and "DestinationIP (ReqTransitIPs sampleBatch ! 0) = Addr4 10"
    by (simp_all add: sampleBatch_def)
  ultimately have t1:
    "transitIPTarget (snd (HandleConnectorTransitIPRequest sampleConn 7 sampleBatch)) 7 (Addr4 1)
       = Addr4 10"
    by simp
  from b have t2: "transitIPTarget
        (snd (HandleConnectorTransitIPRequest
               (snd (HandleConnectorTransitIPRequest Conn25_zero 7
                      \<lparr>ReqTransitIPs = [\<lparr>TransitIP = Addr4 1, DestinationIP = Addr4 10\<rparr>]\<rparr>))
               7 \<lparr>ReqTransitIPs = [\<lparr>TransitIP = Addr4 1, DestinationIP = Addr4 20\<rparr>]\<rparr>))
        7 (Addr4 1)
       = Addr4 20"
    by (simp add: case_prod_beta Let_def)
  from len fresh t1 t2 show ?thesis
    by blast
qed

text \<open>
  C4. A lookup cannot fail: \<^verbatim>\<open>transitIPTarget\<close> has an address as its only result. When the
  map of peers is \<^verbatim>\<open>nil\<close>, or has no entry for the peer, or the peer's submap has no entry
  for the transit address, the result is the zero address. This covers the fresh connector
  and, after any sequence of operations from the fresh connector, every peer and transit
  address that no registration of that peer has named.
\<close>

theorem lookup_absent_is_zero:
  "((\<forall>m pm. transitIPs c = Some m \<and> m nid = Some pm \<longrightarrow> pm tip = None)
      \<longrightarrow> transitIPTarget c nid tip = AddrZero)
   \<and> transitIPTarget Conn25_zero nid tip = AddrZero
   \<and> ((\<forall>ctipr. Register nid ctipr \<in> set ops \<longrightarrow> tip \<notin> TransitIP ` set (ReqTransitIPs ctipr))
      \<longrightarrow> transitIPTarget (foldl applyOp Conn25_zero ops) nid tip = AddrZero)"
proof -
  have absent: "transitIPTarget c nid tip = AddrZero"
    if "\<forall>m pm. transitIPs c = Some m \<and> m nid = Some pm \<longrightarrow> pm tip = None"
    using that by (auto simp: transitIPTarget_def split: option.splits)
  have fresh: "transitIPTarget Conn25_zero nid tip = AddrZero"
    by (simp add: transitIPTarget_def Conn25_zero_def)
  have "transitIPTarget (foldl applyOp Conn25_zero ops) nid tip = AddrZero"
    if "\<forall>ctipr. Register nid ctipr \<in> set ops \<longrightarrow> tip \<notin> TransitIP ` set (ReqTransitIPs ctipr)"
    using run_target_frame [of nid ops tip Conn25_zero] that fresh by simp
  with absent fresh show ?thesis
    by blast
qed

theorem lookup_absent_is_zero_witness:
  "transitIPs sampleConn = Some [7 \<mapsto> [Addr4 1 \<mapsto> Addr4 10]]
   \<and> transitIPTarget sampleConn 7 (Addr4 2) = AddrZero
   \<and> transitIPTarget (foldl applyOp Conn25_zero [Register 7 sampleBatch, Lookup 8 (Addr4 1)])
        8 (Addr4 1) = AddrZero"
proof -
  have st: "transitIPs sampleConn = Some [7 \<mapsto> [Addr4 1 \<mapsto> Addr4 10]]"
    by (simp add: sampleConn_def)
  have h1: "\<forall>m pm. transitIPs sampleConn = Some m \<and> m 7 = Some pm \<longrightarrow> pm (Addr4 2) = None"
    by (auto simp: sampleConn_def)
  have h2: "\<forall>ctipr. Register 8 ctipr \<in> set [Register 7 sampleBatch, Lookup 8 (Addr4 1)]
              \<longrightarrow> Addr4 1 \<notin> TransitIP ` set (ReqTransitIPs ctipr)"
    by simp
  from st h1 h2
       lookup_absent_is_zero [of sampleConn 7 "Addr4 2" "[Register 7 sampleBatch, Lookup 8 (Addr4 1)]"]
       lookup_absent_is_zero [of sampleConn 8 "Addr4 1" "[Register 7 sampleBatch, Lookup 8 (Addr4 1)]"]
  show ?thesis
    by blast
qed

text \<open>
  C7. A registration by peer \<open>P1\<close> leaves the whole submap of every other peer \<open>P2\<close> as it
  was (also its absence), so every lookup for \<open>P2\<close> gives the same address before and after.
\<close>

theorem cross_peer_isolation:
  assumes "P1 \<noteq> P2"
  shows "peerMapOf (snd (HandleConnectorTransitIPRequest c P1 ctipr)) P2 = peerMapOf c P2
         \<and> transitIPTarget (snd (HandleConnectorTransitIPRequest c P1 ctipr)) P2 T
             = transitIPTarget c P2 T"
proof -
  have "peerMapOf (snd (HandleConnectorTransitIPRequest c P1 ctipr)) P2 = peerMapOf c P2"
    using transitLoop_peerMapOf_other [of P2 P1 "ReqTransitIPs ctipr" c Map.empty "[]"] assms
    by (simp add: Handle_snd)
  then show ?thesis
    by (simp add: transitIPTarget_peerMapOf)
qed

theorem cross_peer_isolation_witness:
  "(8::NodeID) \<noteq> 7
   \<and> peerMapOf (snd (HandleConnectorTransitIPRequest sampleConn 8 sampleBatch)) 7
       = Some [Addr4 1 \<mapsto> Addr4 10]
   \<and> transitIPTarget (snd (HandleConnectorTransitIPRequest sampleConn 8 sampleBatch)) 7 (Addr4 2)
       = AddrZero"
proof -
  have ne: "(8::NodeID) \<noteq> 7"
    by simp
  from cross_peer_isolation [OF ne, of sampleConn sampleBatch "Addr4 2"] ne show ?thesis
    by (simp add: peerMapOf_def transitIPTarget_def sampleConn_def)
qed

text \<open>
  C9. In every connector reached from the zero connector by registrations and lookups, no
  peer has an empty submap. \<^verbatim>\<open>handleTransitIPRequest\<close> leaves the peer with its former
  submap (the empty one if it had none) extended by the new mapping. After a registration the
  peers with an entry are those that had one before, together with the registering peer
  when the batch is not empty: a batch of zero pairs adds no entry, and the first pair of
  any other batch is never a duplicate.
\<close>

theorem no_empty_submap:
  "(\<forall>n. peerMapOf (foldl applyOp Conn25_zero ops) n \<noteq> Some Map.empty)
   \<and> peerMapOf (snd (handleTransitIPRequest c nid tipr)) nid
       = Some ((case peerMapOf c nid of None \<Rightarrow> Map.empty | Some pm \<Rightarrow> pm)
                 (TransitIP tipr \<mapsto> DestinationIP tipr))
   \<and> (peerMapOf (snd (HandleConnectorTransitIPRequest c nid ctipr)) n \<noteq> None
        \<longleftrightarrow> peerMapOf c n \<noteq> None \<or> (n = nid \<and> ReqTransitIPs ctipr \<noteq> []))"
proof -
  have "\<forall>n. peerMapOf Conn25_zero n \<noteq> Some Map.empty"
    by (simp add: peerMapOf_def Conn25_zero_def)
  then have inv: "\<forall>n. peerMapOf (foldl applyOp Conn25_zero ops) n \<noteq> Some Map.empty"
    by (rule run_no_empty)
  have "(\<exists>x \<in> set (ReqTransitIPs ctipr). \<not> seenAt Map.empty (TransitIP x))
          \<longleftrightarrow> ReqTransitIPs ctipr \<noteq> []"
    by (cases "ReqTransitIPs ctipr") (auto simp: seenAt_def)
  then have peers: "peerMapOf (snd (HandleConnectorTransitIPRequest c nid ctipr)) n \<noteq> None
        \<longleftrightarrow> peerMapOf c n \<noteq> None \<or> (n = nid \<and> ReqTransitIPs ctipr \<noteq> [])"
    using transitLoop_peers [of nid "ReqTransitIPs ctipr" c Map.empty "[]" n]
    by (simp add: Handle_snd)
  from inv peers show ?thesis
    by (simp add: peerMapOf_handle)
qed

theorem no_empty_submap_witness:
  "peerMapOf (foldl applyOp Conn25_zero
                [Lookup 8 (Addr4 1), Register 7 sampleBatch, Register 8 \<lparr>ReqTransitIPs = []\<rparr>]) 7
     \<noteq> Some Map.empty
   \<and> peerMapOf (snd (HandleConnectorTransitIPRequest Conn25_zero 8 \<lparr>ReqTransitIPs = []\<rparr>)) 8 = None"
  using no_empty_submap [of "[Lookup 8 (Addr4 1), Register 7 sampleBatch,
                               Register 8 \<lparr>ReqTransitIPs = []\<rparr>]"
                            Conn25_zero 8 "\<lparr>TransitIP = AddrZero, DestinationIP = AddrZero\<rparr>"
                            "\<lparr>ReqTransitIPs = []\<rparr>" 8]
  by (simp add: peerMapOf_def Conn25_zero_def)

text \<open>
  C10. A pair whose destination is the zero address is applied like any other: the outcome
  is \<^verbatim>\<open>OK\<close> with an empty message, the mapping is stored, and the lookup gives the zero
  address, which is also what a lookup gives when nothing is stored for the transit
  address. The zero address is accepted as a transit address as well.
\<close>

theorem zero_address_accepted:
  "fst (HandleConnectorTransitIPRequest c nid
          \<lparr>ReqTransitIPs = [\<lparr>TransitIP = T, DestinationIP = AddrZero\<rparr>]\<rparr>)
     = \<lparr>RespTransitIPs = [\<lparr>Code = OK, Message = ''''\<rparr>]\<rparr>
   \<and> (\<exists>pm. peerMapOf (snd (HandleConnectorTransitIPRequest c nid
               \<lparr>ReqTransitIPs = [\<lparr>TransitIP = T, DestinationIP = AddrZero\<rparr>]\<rparr>)) nid = Some pm
            \<and> pm T = Some AddrZero)
   \<and> transitIPTarget (snd (HandleConnectorTransitIPRequest c nid
          \<lparr>ReqTransitIPs = [\<lparr>TransitIP = T, DestinationIP = AddrZero\<rparr>]\<rparr>)) nid T = AddrZero
   \<and> transitIPTarget Conn25_zero nid T = AddrZero
   \<and> fst (HandleConnectorTransitIPRequest c nid
          \<lparr>ReqTransitIPs = [\<lparr>TransitIP = AddrZero, DestinationIP = D\<rparr>]\<rparr>)
     = \<lparr>RespTransitIPs = [\<lparr>Code = OK, Message = ''''\<rparr>]\<rparr>
   \<and> transitIPTarget (snd (HandleConnectorTransitIPRequest c nid
          \<lparr>ReqTransitIPs = [\<lparr>TransitIP = AddrZero, DestinationIP = D\<rparr>]\<rparr>)) nid AddrZero = D"
  by (simp add: HandleConnectorTransitIPRequest_def handleTransitIPRequest_def seenAt_def
                transitIPTarget_def peerMapOf_def TransitIPResponse_zero_def Conn25_zero_def
                Let_def)

section \<open>Properties of the closed-pipe classifiers\<close>

lemma errorsIsChain_causes:
  "errorsIsChain e target \<longleftrightarrow> target \<in> set (causes e)"
proof (induction e)
  case (Leaf l)
  show ?case by auto
next
  case (Wrap msg e)
  then show ?case by simp
next
  case (Join es)
  then show ?case by (auto simp: list_ex_iff)
qed

lemma errors_Is_causes:
  "errors_Is err target \<longleftrightarrow> (\<exists>e. err = Some e \<and> target \<in> set (causes e))"
  by (cases err) (simp_all add: errors_Is_def errorsIsChain_causes)

text \<open>
  C6, as amended. The \<^verbatim>\<open>neterror\<close> function of the builds with system errors answers
  \<^verbatim>\<open>true\<close> exactly for the errors that have a pipe-closed, broken-pipe, not-connected or
  already-closed condition among their causes, so \<^verbatim>\<open>false\<close> for \<^verbatim>\<open>nil\<close> and for every other
  error. The \<^verbatim>\<open>localapi\<close> function answers \<^verbatim>\<open>true\<close> only for such errors, and does so whenever
  the platform's broken-pipe errno or \<^verbatim>\<open>io.ErrClosedPipe\<close> is among the causes. The
  \<^verbatim>\<open>neterror\<close> function of the \<^verbatim>\<open>js\<close> and \<^verbatim>\<open>wasm\<close> builds answers \<^verbatim>\<open>false\<close> for every error.
\<close>

theorem closed_pipe_classifiers:
  "(IsClosedPipeError p err \<longleftrightarrow> representsClosedPipe p err)
   \<and> (IsClosedPipeError_localapi p err \<longrightarrow> representsClosedPipe p err)
   \<and> ((\<exists>e. err = Some e \<and>
            (ErrnoError (brokenPipeErrno p) \<in> set (causes e) \<or> ErrClosedPipe \<in> set (causes e)))
        \<longrightarrow> IsClosedPipeError_localapi p err)
   \<and> \<not> IsClosedPipeError_localapi p None
   \<and> \<not> IsClosedPipeError_js err"
proof -
  have rep: "representsClosedPipe p err \<longleftrightarrow>
               (\<exists>e. err = Some e \<and> (\<exists>l \<in> set (causes e). closedPipeCondition p l))"
    by (cases err) (simp_all add: representsClosedPipe_def list_ex_iff)
  have net: "IsClosedPipeError p err \<longleftrightarrow> representsClosedPipe p err"
    unfolding rep IsClosedPipeError_def Let_def errors_Is_causes closedPipeCondition_def
              brokenPipeErrno_def
    by blast
  have loc: "IsClosedPipeError_localapi p err \<longleftrightarrow>
               (\<exists>e. err = Some e \<and>
                  (ErrnoError (brokenPipeErrno p) \<in> set (causes e) \<or> ErrClosedPipe \<in> set (causes e)))"
    unfolding IsClosedPipeError_localapi_def Let_def errors_Is_causes brokenPipeErrno_def
    by auto
  have sound: "IsClosedPipeError_localapi p err \<longrightarrow> representsClosedPipe p err"
    unfolding loc rep closedPipeCondition_def by blast
  have nil: "\<not> IsClosedPipeError_localapi p None"
    by (simp add: IsClosedPipeError_localapi_def errors_Is_def)
  have js: "\<not> IsClosedPipeError_js err"
    by (simp add: IsClosedPipeError_js_def)
  from net sound loc nil js show ?thesis
    by blast
qed

theorem closed_pipe_classifiers_witness:
  "IsClosedPipeError linux (Some (Wrap ''write tcp'' (Leaf (ErrnoError 32))))
   \<and> IsClosedPipeError_localapi linux (Some (Wrap ''write tcp'' (Leaf (ErrnoError 32))))
   \<and> representsClosedPipe linux (Some (Wrap ''write tcp'' (Leaf (ErrnoError 32))))
   \<and> brokenPipeErrno linux = 32"
proof -
  have b: "brokenPipeErrno linux = 32"
    by (simp add: brokenPipeErrno_def linux_def)
  have "\<exists>e. Some (Wrap ''write tcp'' (Leaf (ErrnoError 32))) = Some e \<and>
            (ErrnoError (brokenPipeErrno linux) \<in> set (causes e) \<or> ErrClosedPipe \<in> set (causes e))"
    by (simp add: b)
  with closed_pipe_classifiers [of linux "Some (Wrap ''write tcp'' (Leaf (ErrnoError 32)))"] b
  show ?thesis
    by blast
qed

text \<open>
  C6 as stated fails for two of the three functions: the not-connected errno of Linux is one
  of the conditions the claim lists, yet the \<^verbatim>\<open>localapi\<close> function and the \<^verbatim>\<open>js\<close> build of the
  \<^verbatim>\<open>neterror\<close> function answer \<^verbatim>\<open>false\<close> for it.
\<close>

theorem closed_pipe_not_connected_counterexample:
  "representsClosedPipe linux (Some (Leaf (ErrnoError 107)))
   \<and> IsClosedPipeError linux (Some (Leaf (ErrnoError 107)))
   \<and> \<not> IsClosedPipeError_localapi linux (Some (Leaf (ErrnoError 107)))
   \<and> \<not> IsClosedPipeError_js (Some (Leaf (ErrnoError 107)))"
  by (simp add: representsClosedPipe_def closedPipeCondition_def brokenPipeErrno_def linux_def
                IsClosedPipeError_def IsClosedPipeError_localapi_def IsClosedPipeError_js_def
                errors_Is_def)

section \<open>Properties of the locking\<close>

lemma handleTransitIPRequest_trace_last:
  "last (handleTransitIPRequest_trace c nid tipr) = (False, snd (handleTransitIPRequest c nid tipr))"
  by (simp add: handleTransitIPRequest_trace_def handleTransitIPRequest_def Let_def)

lemma handleTransitIPRequest_trace_free:
  "s \<in> set (handleTransitIPRequest_trace c nid tipr) \<Longrightarrow> \<not> fst s \<Longrightarrow>
   s = (False, snd (handleTransitIPRequest c nid tipr))"
  by (auto simp: handleTransitIPRequest_trace_def handleTransitIPRequest_def Let_def)

lemma handleTransitIPRequest_trace_mem:
  "(False, snd (handleTransitIPRequest c nid tipr)) \<in> set (handleTransitIPRequest_trace c nid tipr)"
  by (simp add: handleTransitIPRequest_trace_def handleTransitIPRequest_def Let_def)

lemma transitLoop_trace_Cons_dup:
  "seenAt seen (TransitIP x) \<Longrightarrow>
   transitLoop_trace nid (x # xs) (c, seen, resp) =
     transitLoop_trace nid xs
       (c, seen, resp @ [\<lparr>Code = OtherFailure, Message = dupeTransitIPMessage\<rparr>])"
  by simp

lemma transitLoop_trace_Cons_fresh:
  "\<not> seenAt seen (TransitIP x) \<Longrightarrow>
   transitLoop_trace nid (x # xs) (c, seen, resp) =
     handleTransitIPRequest_trace c nid x @
     transitLoop_trace nid xs
       (snd (handleTransitIPRequest c nid x), seen(TransitIP x \<mapsto> True),
        resp @ [fst (handleTransitIPRequest c nid x)])"
  by (simp add: case_prod_beta)

lemma transitLoop_trace_free:
  "s \<in> set (transitLoop_trace nid xs st) \<Longrightarrow> \<not> fst s \<Longrightarrow>
   \<exists>k. k \<le> length xs \<and> snd s = fst (transitLoop nid (take k xs) st)"
proof (induction xs arbitrary: st)
  case Nil
  then show ?case by simp
next
  case (Cons x xs)
  obtain c seen resp where st: "st = (c, seen, resp)"
    by (cases st) auto
  show ?case
  proof (cases "seenAt seen (TransitIP x)")
    case True
    let ?st' = "(c, seen, resp @ [\<lparr>Code = OtherFailure, Message = dupeTransitIPMessage\<rparr>])"
    have "s \<in> set (transitLoop_trace nid xs ?st')"
      using Cons.prems(1) by (simp only: st transitLoop_trace_Cons_dup [OF True])
    from Cons.IH [OF this Cons.prems(2)]
    obtain k where k: "k \<le> length xs" "snd s = fst (transitLoop nid (take k xs) ?st')"
      by blast
    have "transitLoop nid (take (Suc k) (x # xs)) st = transitLoop nid (take k xs) ?st'"
      using True by (simp add: st)
    with k show ?thesis
      by (metis Suc_le_mono length_Cons)
  next
    case False
    let ?st' = "(snd (handleTransitIPRequest c nid x), seen(TransitIP x \<mapsto> True),
                 resp @ [fst (handleTransitIPRequest c nid x)])"
    have step: "transitLoop nid (take (Suc k) (x # xs)) st = transitLoop nid (take k xs) ?st'"
      for k
      using transitLoop_Cons_fresh [OF False, of nid "take k xs" c resp] by (simp add: st)
    have "s \<in> set (handleTransitIPRequest_trace c nid x) \<or> s \<in> set (transitLoop_trace nid xs ?st')"
      using Cons.prems(1) by (simp only: st transitLoop_trace_Cons_fresh [OF False] set_append Un_iff)
    then show ?thesis
    proof
      assume "s \<in> set (handleTransitIPRequest_trace c nid x)"
      from handleTransitIPRequest_trace_free [OF this Cons.prems(2)]
      have "snd s = snd (handleTransitIPRequest c nid x)"
        by simp
      also have "\<dots> = fst (transitLoop nid (take (Suc 0) (x # xs)) st)"
        by (simp only: step take_0 transitLoop.simps fst_conv)
      finally show ?thesis
        by (metis Suc_le_mono length_Cons le0)
    next
      assume "s \<in> set (transitLoop_trace nid xs ?st')"
      from Cons.IH [OF this Cons.prems(2)]
      obtain k where k: "k \<le> length xs" "snd s = fst (transitLoop nid (take k xs) ?st')"
        by blast
      with step [of k] show ?thesis
        by (metis Suc_le_mono length_Cons)
    qed
  qed
qed

lemma transitLoop_trace_prefix:
  "k \<le> length xs \<Longrightarrow>
   (False, fst (transitLoop nid (take k xs) st)) \<in> set ((False, fst st) # transitLoop_trace nid xs st)"
proof (induction xs arbitrary: st k)
  case Nil
  then show ?case by simp
next
  case (Cons x xs)
  obtain c seen resp where st: "st = (c, seen, resp)"
    by (cases st) auto
  show ?case
  proof (cases k)
    case 0
    then show ?thesis by simp
  next
    case (Suc k')
    then have k': "k' \<le> length xs"
      using Cons.prems by simp
    show ?thesis
    proof (cases "seenAt seen (TransitIP x)")
      case True
      let ?st' = "(c, seen, resp @ [\<lparr>Code = OtherFailure, Message = dupeTransitIPMessage\<rparr>])"
      have "transitLoop nid (take k (x # xs)) st = transitLoop nid (take k' xs) ?st'"
        using True by (simp add: st Suc)
      moreover have "transitLoop_trace nid (x # xs) st = transitLoop_trace nid xs ?st'"
        by (simp only: st transitLoop_trace_Cons_dup [OF True])
      moreover have "fst ?st' = fst st"
        by (simp add: st)
      ultimately show ?thesis
        using Cons.IH [OF k', of ?st'] by simp
    next
      case False
      let ?st' = "(snd (handleTransitIPRequest c nid x), seen(TransitIP x \<mapsto> True),
                   resp @ [fst (handleTransitIPRequest c nid x)])"
      have loop: "transitLoop nid (take k (x # xs)) st = transitLoop nid (take k' xs) ?st'"
        using transitLoop_Cons_fresh [OF False, of nid "take k' xs" c resp] by (simp add: st Suc)
      have tr: "transitLoop_trace nid (x # xs) st =
                  handleTransitIPRequest_trace c nid x @ transitLoop_trace nid xs ?st'"
        by (simp only: st transitLoop_trace_Cons_fresh [OF False])
      have "(False, fst (transitLoop nid (take k' xs) ?st'))
              \<in> set ((False, fst ?st') # transitLoop_trace nid xs ?st')"
        by (rule Cons.IH [OF k'])
      moreover have "(False, fst ?st') \<in> set (handleTransitIPRequest_trace c nid x)"
        using handleTransitIPRequest_trace_mem [of c nid x] by simp
      ultimately have "(False, fst (transitLoop nid (take k' xs) ?st'))
              \<in> set (handleTransitIPRequest_trace c nid x @ transitLoop_trace nid xs ?st')"
        by auto
      then show ?thesis
        by (simp only: loop tr set_simps insert_iff simp_thms)
    qed
  qed
qed

lemma transitLoop_trace_last:
  "last ((False, fst st) # transitLoop_trace nid xs st) = (False, fst (transitLoop nid xs st))"
proof (induction xs arbitrary: st)
  case Nil
  show ?case by simp
next
  case (Cons x xs)
  obtain c seen resp where st: "st = (c, seen, resp)"
    by (cases st) auto
  show ?case
  proof (cases "seenAt seen (TransitIP x)")
    case True
    let ?st' = "(c, seen, resp @ [\<lparr>Code = OtherFailure, Message = dupeTransitIPMessage\<rparr>])"
    have "last ((False, fst ?st') # transitLoop_trace nid xs ?st')
            = (False, fst (transitLoop nid xs ?st'))"
      by (rule Cons.IH)
    then show ?thesis
      using True by (simp add: st)
  next
    case False
    let ?st' = "(snd (handleTransitIPRequest c nid x), seen(TransitIP x \<mapsto> True),
                 resp @ [fst (handleTransitIPRequest c nid x)])"
    have ih: "last ((False, fst ?st') # transitLoop_trace nid xs ?st')
            = (False, fst (transitLoop nid xs ?st'))"
      by (rule Cons.IH)
    have ne: "handleTransitIPRequest_trace c nid x \<noteq> []"
      by (simp add: handleTransitIPRequest_trace_def Let_def)
    have "last ((False, fst st) # transitLoop_trace nid (x # xs) st)
            = last (handleTransitIPRequest_trace c nid x @ transitLoop_trace nid xs ?st')"
      using ne by (simp only: st transitLoop_trace_Cons_fresh [OF False]) simp
    also have "\<dots> = last ((False, fst ?st') # transitLoop_trace nid xs ?st')"
      using handleTransitIPRequest_trace_last [of c nid x] ne
      by (cases "transitLoop_trace nid xs ?st' = []") simp_all
    also have "\<dots> = (False, fst (transitLoop nid xs ?st'))"
      by (rule ih)
    also have "transitLoop nid xs ?st' = transitLoop nid (x # xs) st"
      by (simp only: st transitLoop_Cons_fresh [OF False])
    finally show ?thesis .
  qed
qed

text \<open>
  C5, as amended. The mutex is not held across the batch of a registering call.
  \<^verbatim>\<open>handleTransitIPRequest\<close> takes it on entry and releases it on return, once for every
  applied pair: it is held from the first snapshot to the last but one, and the last
  snapshot, with the mutex released, shows the connector that the application returns.
  \<^verbatim>\<open>transitIPTarget\<close> does the same once for every lookup, leaves the connector as it is
  and returns what the connector holds. Over a whole registering call, every snapshot in
  which the mutex is free shows the connector as the first \<open>k\<close> pairs of the batch have left
  it, for some \<open>k\<close>; each such connector does occur with the mutex free; and the call ends
  with the mutex free and the connector it returns. A concurrent lookup can take the mutex
  only at such a snapshot: it then returns the target held by the connector that the first
  \<open>k\<close> pairs have left, for some \<open>k\<close>, and does not change that connector; every \<open>k\<close> can be
  observed in this way; and a lookup that takes the mutex at the last snapshot returns the
  target held by the connector that the registering call returns. So a concurrent lookup
  sees the batch applied up to some pair, never a pair half applied.
\<close>

theorem lock_held_per_pair:
  "(\<forall>s \<in> set (HandleConnectorTransitIPRequest_trace c nid ctipr).
      \<not> fst s \<longrightarrow>
      (\<exists>k. k \<le> length (ReqTransitIPs ctipr)
           \<and> snd s = fst (loopAfter c nid (ReqTransitIPs ctipr) k)))
   \<and> (\<forall>k \<le> length (ReqTransitIPs ctipr).
        (False, fst (loopAfter c nid (ReqTransitIPs ctipr) k))
          \<in> set (HandleConnectorTransitIPRequest_trace c nid ctipr))
   \<and> last (HandleConnectorTransitIPRequest_trace c nid ctipr)
       = (False, snd (HandleConnectorTransitIPRequest c nid ctipr))
   \<and> (\<forall>s \<in> set (butlast (handleTransitIPRequest_trace c nid tipr)). fst s)
   \<and> last (handleTransitIPRequest_trace c nid tipr)
       = (False, snd (handleTransitIPRequest c nid tipr))
   \<and> transitIPTarget_trace c nid' tip = ([(True, c), (False, c)], transitIPTarget c nid' tip)
   \<and> (\<forall>j r. lookupAt (HandleConnectorTransitIPRequest_trace c nid ctipr) j nid' tip = Some r
        \<longrightarrow> \<not> fst (HandleConnectorTransitIPRequest_trace c nid ctipr ! j)
          \<and> (\<exists>k. k \<le> length (ReqTransitIPs ctipr)
                \<and> r = ([(True, fst (loopAfter c nid (ReqTransitIPs ctipr) k)),
                         (False, fst (loopAfter c nid (ReqTransitIPs ctipr) k))],
                        transitIPTarget (fst (loopAfter c nid (ReqTransitIPs ctipr) k)) nid' tip)))
   \<and> (\<forall>k \<le> length (ReqTransitIPs ctipr).
        \<exists>j. lookupAt (HandleConnectorTransitIPRequest_trace c nid ctipr) j nid' tip
              = Some ([(True, fst (loopAfter c nid (ReqTransitIPs ctipr) k)),
                       (False, fst (loopAfter c nid (ReqTransitIPs ctipr) k))],
                      transitIPTarget (fst (loopAfter c nid (ReqTransitIPs ctipr) k)) nid' tip))
   \<and> lookupAt (HandleConnectorTransitIPRequest_trace c nid ctipr)
        (length (HandleConnectorTransitIPRequest_trace c nid ctipr) - 1) nid' tip
       = Some ([(True, snd (HandleConnectorTransitIPRequest c nid ctipr)),
                (False, snd (HandleConnectorTransitIPRequest c nid ctipr))],
               transitIPTarget (snd (HandleConnectorTransitIPRequest c nid ctipr)) nid' tip)"
proof -
  let ?reqs = "ReqTransitIPs ctipr"
  let ?st = "(c, Map.empty, []) :: Conn25 \<times> (Addr \<rightharpoonup> bool) \<times> TransitIPResponse list"
  let ?tr = "HandleConnectorTransitIPRequest_trace c nid ctipr"
  let ?look = "\<lambda>d. ([(True, d), (False, d)], transitIPTarget d nid' tip)"
  have free: "\<exists>k. k \<le> length ?reqs \<and> snd s = fst (loopAfter c nid ?reqs k)"
    if mem: "s \<in> set ?tr" and f: "\<not> fst s" for s
  proof -
    from mem have "s = (False, c) \<or> s \<in> set (transitLoop_trace nid ?reqs ?st)"
      by (simp add: HandleConnectorTransitIPRequest_trace_def)
    then show ?thesis
    proof
      assume "s = (False, c)"
      then have "snd s = fst (loopAfter c nid ?reqs 0)"
        by (simp add: loopAfter_def)
      then show ?thesis
        by blast
    next
      assume "s \<in> set (transitLoop_trace nid ?reqs ?st)"
      from transitLoop_trace_free [OF this f] show ?thesis
        by (simp add: loopAfter_def)
    qed
  qed
  have pre: "(False, fst (loopAfter c nid ?reqs k)) \<in> set ?tr"
    if "k \<le> length ?reqs" for k
    using transitLoop_trace_prefix [OF that, of nid ?st]
    by (simp add: HandleConnectorTransitIPRequest_trace_def loopAfter_def)
  have fin: "last ?tr = (False, snd (HandleConnectorTransitIPRequest c nid ctipr))"
    using transitLoop_trace_last [of ?st nid ?reqs]
    by (simp add: HandleConnectorTransitIPRequest_trace_def Handle_snd)
  have one: "\<forall>s \<in> set (butlast (handleTransitIPRequest_trace c nid tipr)). fst s"
    by (simp add: handleTransitIPRequest_trace_def Let_def)
  have look: "transitIPTarget_trace d nid' tip = ?look d" for d
    by (simp add: transitIPTarget_trace_def Let_def)
  have at: "lookupAt ?tr j nid' tip = Some (?look d)"
    if "j < length ?tr" "?tr ! j = (False, d)" for j d
    using that by (simp add: lookupAt_def look)
  have sees: "\<not> fst (?tr ! j) \<and> (\<exists>k. k \<le> length ?reqs \<and> r = ?look (fst (loopAfter c nid ?reqs k)))"
    if l: "lookupAt ?tr j nid' tip = Some r" for j r
  proof -
    from l have j: "j < length ?tr" and f: "\<not> fst (?tr ! j)"
      and r: "r = ?look (snd (?tr ! j))"
      by (auto simp: lookupAt_def look split: if_splits)
    from j have "?tr ! j \<in> set ?tr"
      by (rule nth_mem)
    from free [OF this f] obtain k where "k \<le> length ?reqs"
      and "snd (?tr ! j) = fst (loopAfter c nid ?reqs k)"
      by blast
    with r f show ?thesis
      by auto
  qed
  have every: "\<exists>j. lookupAt ?tr j nid' tip = Some (?look (fst (loopAfter c nid ?reqs k)))"
    if "k \<le> length ?reqs" for k
  proof -
    from pre [OF that] obtain j where "j < length ?tr"
      and "?tr ! j = (False, fst (loopAfter c nid ?reqs k))"
      by (metis in_set_conv_nth)
    from at [OF this] show ?thesis
      by blast
  qed
  have ne: "?tr \<noteq> []"
    by (simp add: HandleConnectorTransitIPRequest_trace_def)
  then have "length ?tr - 1 < length ?tr"
    and "?tr ! (length ?tr - 1) = (False, snd (HandleConnectorTransitIPRequest c nid ctipr))"
    using fin by (simp_all add: last_conv_nth)
  from at [OF this]
  have after: "lookupAt ?tr (length ?tr - 1) nid' tip
                 = Some (?look (snd (HandleConnectorTransitIPRequest c nid ctipr)))" .
  have held: "last (handleTransitIPRequest_trace c nid tipr)
                = (False, snd (handleTransitIPRequest c nid tipr))"
    by (rule handleTransitIPRequest_trace_last)
  show ?thesis
  proof (intro conjI)
    show "\<forall>s \<in> set ?tr. \<not> fst s \<longrightarrow>
            (\<exists>k. k \<le> length ?reqs \<and> snd s = fst (loopAfter c nid ?reqs k))"
      using free by blast
    show "\<forall>k \<le> length ?reqs. (False, fst (loopAfter c nid ?reqs k)) \<in> set ?tr"
      using pre by blast
    show "last ?tr = (False, snd (HandleConnectorTransitIPRequest c nid ctipr))"
      by (rule fin)
    show "\<forall>s \<in> set (butlast (handleTransitIPRequest_trace c nid tipr)). fst s"
      by (rule one)
    show "last (handleTransitIPRequest_trace c nid tipr)
            = (False, snd (handleTransitIPRequest c nid tipr))"
      by (rule held)
    show "transitIPTarget_trace c nid' tip = ?look c"
      by (rule look)
    show "\<forall>j r. lookupAt ?tr j nid' tip = Some r \<longrightarrow>
            \<not> fst (?tr ! j)
            \<and> (\<exists>k. k \<le> length ?reqs \<and> r = ?look (fst (loopAfter c nid ?reqs k)))"
      using sees by blast
    show "\<forall>k \<le> length ?reqs.
            \<exists>j. lookupAt ?tr j nid' tip = Some (?look (fst (loopAfter c nid ?reqs k)))"
      using every by blast
    show "lookupAt ?tr (length ?tr - 1) nid' tip
            = Some (?look (snd (HandleConnectorTransitIPRequest c nid ctipr)))"
      by (rule after)
  qed
qed

theorem lock_held_per_pair_witness:
  "(False, fst (loopAfter Conn25_zero 7 (ReqTransitIPs twoFreshPairs) 1))
      \<in> set (HandleConnectorTransitIPRequest_trace Conn25_zero 7 twoFreshPairs)
   \<and> transitIPTarget (fst (loopAfter Conn25_zero 7 (ReqTransitIPs twoFreshPairs) 1)) 7 (Addr4 1)
       = Addr4 10
   \<and> last (HandleConnectorTransitIPRequest_trace Conn25_zero 7 twoFreshPairs)
       = (False, snd (HandleConnectorTransitIPRequest Conn25_zero 7 twoFreshPairs))
   \<and> (\<exists>j. lookupAt (HandleConnectorTransitIPRequest_trace Conn25_zero 7 twoFreshPairs) j 7 (Addr4 1)
            = Some ([(True, fst (loopAfter Conn25_zero 7 (ReqTransitIPs twoFreshPairs) 1)),
                     (False, fst (loopAfter Conn25_zero 7 (ReqTransitIPs twoFreshPairs) 1))],
                    Addr4 10))"
proof -
  note inst = lock_held_per_pair [of Conn25_zero 7 twoFreshPairs
                                     "\<lparr>TransitIP = Addr4 1, DestinationIP = Addr4 10\<rparr>"
                                     7 "Addr4 1"]
  have len: "(1::nat) \<le> length (ReqTransitIPs twoFreshPairs)"
    by (simp add: twoFreshPairs_def)
  from inst len
  have a: "(False, fst (loopAfter Conn25_zero 7 (ReqTransitIPs twoFreshPairs) 1))
             \<in> set (HandleConnectorTransitIPRequest_trace Conn25_zero 7 twoFreshPairs)"
    by blast
  have b: "transitIPTarget (fst (loopAfter Conn25_zero 7 (ReqTransitIPs twoFreshPairs) 1)) 7
             (Addr4 1) = Addr4 10"
    by (simp add: loopAfter_def twoFreshPairs_def seenAt_def handleTransitIPRequest_def
                  transitIPTarget_def Conn25_zero_def Let_def)
  from inst len
  have "\<exists>j. lookupAt (HandleConnectorTransitIPRequest_trace Conn25_zero 7 twoFreshPairs) j 7 (Addr4 1)
            = Some ([(True, fst (loopAfter Conn25_zero 7 (ReqTransitIPs twoFreshPairs) 1)),
                     (False, fst (loopAfter Conn25_zero 7 (ReqTransitIPs twoFreshPairs) 1))],
                    transitIPTarget (fst (loopAfter Conn25_zero 7 (ReqTransitIPs twoFreshPairs) 1))
                      7 (Addr4 1))"
    by blast
  then have c: "\<exists>j. lookupAt (HandleConnectorTransitIPRequest_trace Conn25_zero 7 twoFreshPairs) j 7 (Addr4 1)
            = Some ([(True, fst (loopAfter Conn25_zero 7 (ReqTransitIPs twoFreshPairs) 1)),
                     (False, fst (loopAfter Conn25_zero 7 (ReqTransitIPs twoFreshPairs) 1))],
                    Addr4 10)"
    by (simp only: b)
  from inst a b c show ?thesis
    by blast
qed

text \<open>
  C5 as stated fails. In a call with two fresh pairs on the zero connector, the sixth
  snapshot (index 5) has the mutex free, between the \<^verbatim>\<open>Unlock\<close> of the first application and
  the \<^verbatim>\<open>Lock\<close> of the second (index 6). Its connector maps the first transit address, which
  the connector before the batch does not, and does not map the second, which the
  connector after the batch does. A lookup that takes the mutex there returns the first
  destination for the first transit address and the zero address for the second.
\<close>

theorem lock_released_between_pairs_counterexample:
  "length (HandleConnectorTransitIPRequest_trace Conn25_zero 7 twoFreshPairs) = 11
   \<and> fst (HandleConnectorTransitIPRequest_trace Conn25_zero 7 twoFreshPairs ! 5) = False
   \<and> fst (HandleConnectorTransitIPRequest_trace Conn25_zero 7 twoFreshPairs ! 6) = True
   \<and> transitIPTarget (snd (HandleConnectorTransitIPRequest_trace Conn25_zero 7 twoFreshPairs ! 5))
        7 (Addr4 1) = Addr4 10
   \<and> transitIPTarget (snd (HandleConnectorTransitIPRequest_trace Conn25_zero 7 twoFreshPairs ! 5))
        7 (Addr4 2) = AddrZero
   \<and> transitIPTarget Conn25_zero 7 (Addr4 1) = AddrZero
   \<and> transitIPTarget (snd (HandleConnectorTransitIPRequest Conn25_zero 7 twoFreshPairs))
        7 (Addr4 2) = Addr4 30
   \<and> map_option snd
        (lookupAt (HandleConnectorTransitIPRequest_trace Conn25_zero 7 twoFreshPairs) 5 7 (Addr4 1))
       = Some (Addr4 10)
   \<and> map_option snd
        (lookupAt (HandleConnectorTransitIPRequest_trace Conn25_zero 7 twoFreshPairs) 5 7 (Addr4 2))
       = Some AddrZero"
  by (simp add: HandleConnectorTransitIPRequest_trace_def handleTransitIPRequest_trace_def
                HandleConnectorTransitIPRequest_def handleTransitIPRequest_def
                lookupAt_def transitIPTarget_trace_def
                twoFreshPairs_def seenAt_def transitIPTarget_def Conn25_zero_def Let_def)

end
